theory Spec2Isabelle
  imports Complex_Main
begin

section \<open>JavaScript values\<close>

text \<open>
  The helper functions at the end of the forms integration test file work on values of
  type \<^verbatim>\<open>any\<close>. A number is a double: not-a-number, an infinity, or a finite
  value, kept here as the rational it denotes (both zeros are the rational 0, which is all
  that a comparison with zero can see). A symbol is known by its number. An array is the
  list of its elements. An object is an ordinary object whose prototype is
  \<^verbatim>\<open>Object.prototype\<close>, given by the list of its own data properties; a property
  value is a value of this type, so no property of an object is callable. (An own property
  named \<^verbatim>\<open>__proto__\<close>, as \<^verbatim>\<open>JSON.parse\<close> makes it, is a data property like any
  other; an object literal with \<^verbatim>\<open>__proto__: x\<close> sets the prototype instead and makes
  no such property.)
\<close>

datatype jsnumber = NaN | PosInfinity | NegInfinity | Finite rat

datatype jsval =
    JUndefined
  | JNull
  | JBool bool
  | JNum jsnumber
  | JBigInt int
  | JStr string
  | JSymbol nat
  | JArr "jsval list"
  | JObj "(string \<times> jsval) list"

datatype jserror = TypeError

text \<open>\<^verbatim>\<open>ToNumber\<close> on a boolean.\<close>

definition boolToNumber :: "bool \<Rightarrow> jsnumber" where
  "boolToNumber b = (if b then Finite 1 else Finite 0)"

text \<open>
  Whether \<^verbatim>\<open>ToString(v)\<close> is the empty string, or the error the conversion throws.
  \<^item> A string is its own conversion. Numbers, bigints, booleans, \<^verbatim>\<open>undefined\<close> and
    \<^verbatim>\<open>null\<close> convert to strings that are not empty. A symbol does not convert: a
    \<^verbatim>\<open>TypeError\<close>.
  \<^item> An array converts by \<^verbatim>\<open>join\<close>: its elements are converted from left to right,
    an \<^verbatim>\<open>undefined\<close> or \<^verbatim>\<open>null\<close> element counting as the empty string, and
    are put together with commas between them. The join is empty when there is no
    element, or one element whose string is empty.
  \<^item> An object converts through its \<^verbatim>\<open>toString\<close> and \<^verbatim>\<open>valueOf\<close> properties,
    skipping one that is not callable. The inherited \<^verbatim>\<open>toString\<close> gives
    \<^verbatim>\<open>[object Object]\<close> and the inherited \<^verbatim>\<open>valueOf\<close> gives the object itself,
    which is no primitive. An own property \<^verbatim>\<open>toString\<close> hides the inherited one and is
    not callable, and then no method gives a primitive: a \<^verbatim>\<open>TypeError\<close>. An own
    property \<^verbatim>\<open>valueOf\<close> alone is skipped, and the inherited \<^verbatim>\<open>toString\<close>
    answers.
\<close>

fun toStringIsEmpty :: "jsval \<Rightarrow> jserror + bool"
  and joinIsEmpty :: "jsval list \<Rightarrow> jserror + bool" where
  "toStringIsEmpty JUndefined = Inr False"
| "toStringIsEmpty JNull = Inr False"
| "toStringIsEmpty (JBool b) = Inr False"
| "toStringIsEmpty (JNum n) = Inr False"
| "toStringIsEmpty (JBigInt i) = Inr False"
| "toStringIsEmpty (JStr s) = Inr (s = [])"
| "toStringIsEmpty (JSymbol n) = Inl TypeError"
| "toStringIsEmpty (JArr xs) = joinIsEmpty xs"
| "toStringIsEmpty (JObj ps) =
     (if ''toString'' \<in> set (map fst ps) then Inl TypeError else Inr False)"
| "joinIsEmpty [] = Inr True"
| "joinIsEmpty (x # xs) =
     (case (if x = JUndefined \<or> x = JNull then Inr True else toStringIsEmpty x) of
        Inl e \<Rightarrow> Inl e
      | Inr b \<Rightarrow>
          (case joinIsEmpty xs of
             Inl e \<Rightarrow> Inl e
           | Inr r \<Rightarrow> Inr (b \<and> xs = [])))"

text \<open>
  The loose comparison \<^verbatim>\<open>v == ''\<close>: strings compare by content; a number is compared
  with \<^verbatim>\<open>ToNumber('')\<close>, which is zero, and a bigint with the bigint of the empty
  string, which is zero too; a boolean is converted to a number first; an array or object
  is converted to a primitive first, which for the values here is its string or a
  \<^verbatim>\<open>TypeError\<close>; \<^verbatim>\<open>undefined\<close> and \<^verbatim>\<open>null\<close> are loosely equal only to
  each other, and a symbol only to itself.
\<close>

fun looseEqualsEmptyString :: "jsval \<Rightarrow> jserror + bool" where
  "looseEqualsEmptyString JUndefined = Inr False"
| "looseEqualsEmptyString JNull = Inr False"
| "looseEqualsEmptyString (JBool b) = Inr (boolToNumber b = Finite 0)"
| "looseEqualsEmptyString (JNum n) = Inr (n = Finite 0)"
| "looseEqualsEmptyString (JBigInt i) = Inr (i = 0)"
| "looseEqualsEmptyString (JStr s) = Inr (s = [])"
| "looseEqualsEmptyString (JSymbol n) = Inr False"
| "looseEqualsEmptyString (JArr xs) = toStringIsEmpty (JArr xs)"
| "looseEqualsEmptyString (JObj ps) = toStringIsEmpty (JObj ps)"

text \<open>
  The values whose conversion to a string throws, said directly: a symbol, an object with an
  own property \<^verbatim>\<open>toString\<close>, and an array with such an element at any depth.
\<close>

fun conversionThrows :: "jsval \<Rightarrow> bool" where
  "conversionThrows (JObj ps) = (''toString'' \<in> fst ` set ps)"
| "conversionThrows (JArr xs) = (\<exists>x\<in>set xs. conversionThrows x)"
| "conversionThrows (JSymbol n) = True"
| "conversionThrows _ = False"

text \<open>
  The strict comparison \<^verbatim>\<open>v === s\<close> with a string \<open>s\<close>: true only for a string
  of the same content.
\<close>

fun strictEqualsString :: "jsval \<Rightarrow> string \<Rightarrow> bool" where
  "strictEqualsString (JStr t) s = (t = s)"
| "strictEqualsString _ s = False"

section \<open>Form controls as the helpers see them\<close>

text \<open>
  The helpers read one property of a control, \<^verbatim>\<open>value\<close>, and one more of a group,
  \<^verbatim>\<open>controls\<close>, an object from control names to controls.
\<close>

record AbstractControl =
  cvalue :: jsval

record FormGroup = AbstractControl +
  controls :: "(string \<times> AbstractControl) list"

text \<open>
  The group that \<^verbatim>\<open>new FormGroup({'login': new FormControl(v)})\<close> makes, as the tests
  build it: its value is the object of the values of its controls.
\<close>

definition loginGroup :: "jsval \<Rightarrow> FormGroup" where
  "loginGroup v =
     \<lparr> cvalue = JObj [(''login'', v)], controls = [(''login'', \<lparr> cvalue = v \<rparr>)] \<rparr>"

section \<open>loginIsEmptyGroupValidator\<close>

text \<open>
  \<^verbatim>\<open>
  function loginIsEmptyGroupValidator(c: FormGroup) {
    return c.controls['login'].value == '' ? {'loginIsEmpty': true} : null;
  }
  \<close>
  Reading \<^verbatim>\<open>value\<close> of a missing control is a \<^verbatim>\<open>TypeError\<close>, and so is a
  comparison that cannot convert the value to a primitive.
\<close>

definition loginIsEmptyGroupValidator :: "FormGroup \<Rightarrow> jserror + jsval" where
  "loginIsEmptyGroupValidator c =
     (case map_of (controls c) ''login'' of
        None \<Rightarrow> Inl TypeError
      | Some login \<Rightarrow>
          (case looseEqualsEmptyString (cvalue login) of
             Inl e \<Rightarrow> Inl e
           | Inr b \<Rightarrow> Inr (if b then JObj [(''loginIsEmpty'', JBool True)] else JNull)))"

section \<open>Promises and timers\<close>

text \<open>
  \<^verbatim>\<open>asyncValidator\<close> creates a promise and hands its \<^verbatim>\<open>resolve\<close> function to
  \<^verbatim>\<open>setTimeout\<close>. The runtime that both live in is explicit state: a virtual clock in
  milliseconds (the clock that \<^verbatim>\<open>tick\<close> of the tests advances), the promises created so
  far, numbered in order of creation, and the timers that wait to fire. The only callbacks
  the helpers schedule are closures \<^verbatim>\<open>() => resolve(res)\<close>, so a callback is the number
  of the promise together with the value it resolves to.
\<close>

datatype promiseState = Pending | Resolved jsval

datatype callback = Resolve nat jsval

record runtime =
  now :: nat
  promises :: "promiseState list"
  timers :: "(nat \<times> callback) list"

definition emptyRuntime :: runtime where
  "emptyRuntime = \<lparr> now = 0, promises = [], timers = [] \<rparr>"

definition promiseAt :: "runtime \<Rightarrow> nat \<Rightarrow> promiseState option" where
  "promiseAt rt p = (if p < length (promises rt) then Some (promises rt ! p) else None)"

text \<open>\<^verbatim>\<open>new Promise(res => { resolve = res; })\<close>: a new pending promise.\<close>

definition newPromise :: "runtime \<Rightarrow> nat \<times> runtime" where
  "newPromise rt = (length (promises rt), rt\<lparr>promises := promises rt @ [Pending]\<rparr>)"

text \<open>\<^verbatim>\<open>resolve(v)\<close>: settles a pending promise; a settled promise keeps its value.\<close>

definition resolvePromise :: "nat \<Rightarrow> jsval \<Rightarrow> runtime \<Rightarrow> runtime" where
  "resolvePromise p v rt =
     (if promiseAt rt p = Some Pending
      then rt\<lparr>promises := (promises rt)[p := Resolved v]\<rparr> else rt)"

text \<open>\<^verbatim>\<open>setTimeout(cb, delay)\<close>: the callback is due \<open>delay\<close> milliseconds from now.\<close>

definition setTimeout :: "callback \<Rightarrow> nat \<Rightarrow> runtime \<Rightarrow> runtime" where
  "setTimeout cb delay rt = rt\<lparr>timers := timers rt @ [(now rt + delay, cb)]\<rparr>"

fun runCallback :: "callback \<Rightarrow> runtime \<Rightarrow> runtime" where
  "runCallback (Resolve p v) rt = resolvePromise p v rt"

text \<open>
  \<^verbatim>\<open>tick(d)\<close>: the clock advances by \<open>d\<close> and every timer due by then fires, earliest
  first and in order of registration among timers due at the same time. A callback neither
  reads the clock nor sets a timer, so the fired timers are known before any of them runs.
\<close>

definition tick :: "nat \<Rightarrow> runtime \<Rightarrow> runtime" where
  "tick d rt =
     (let deadline = now rt + d;
          fired = filter (\<lambda>t. fst t \<le> deadline) (timers rt);
          waiting = filter (\<lambda>t. \<not> fst t \<le> deadline) (timers rt)
      in fold (\<lambda>t. runCallback (snd t)) (sort_key fst fired)
           (rt\<lparr>now := deadline, timers := waiting\<rparr>))"

definition ticks :: "nat list \<Rightarrow> runtime \<Rightarrow> runtime" where
  "ticks ds rt = fold tick ds rt"

text \<open>
  A closure can only hold the \<^verbatim>\<open>resolve\<close> function of a promise that exists: in a
  well-formed runtime every waiting callback names a promise that has been created.
\<close>

fun target :: "callback \<Rightarrow> nat" where
  "target (Resolve p v) = p"

definition wellFormed :: "runtime \<Rightarrow> bool" where
  "wellFormed rt = list_all (\<lambda>t. target (snd t) < length (promises rt)) (timers rt)"

text \<open>
  The promise \<open>p\<close> is pending, the timer that resolves it to \<open>res\<close> at time \<open>T\<close> waits, and
  no other timer names \<open>p\<close>.
\<close>

definition armed :: "nat \<Rightarrow> nat \<Rightarrow> jsval \<Rightarrow> runtime \<Rightarrow> bool" where
  "armed T p res rt \<longleftrightarrow>
     promiseAt rt p = Some Pending \<and> (T, Resolve p res) \<in> set (timers rt) \<and>
     (\<forall>t\<in>set (timers rt). target (snd t) = p \<longrightarrow> t = (T, Resolve p res))"

section \<open>asyncValidator and uniqLoginAsyncValidator\<close>

text \<open>
  \<^verbatim>\<open>
  function asyncValidator(
      checker: (c: AbstractControl) => boolean, timeout: number = 0, error: any = {
        'async': true
      }) {
    return (c: AbstractControl) => {
      let resolve: (result: any) => void;
      const promise = new Promise<any>(res => {
        resolve = res;
      });
      const res = checker(c) ? null : error;
      setTimeout(() => resolve(res), timeout);
      return promise;
    };
  }
  \<close>
  A default parameter value stands in for a missing or \<^verbatim>\<open>undefined\<close> argument: the
  timeout is optional, and an \<^verbatim>\<open>undefined\<close> error is replaced by
  \<^verbatim>\<open>{'async': true}\<close>. A timeout is a whole number of milliseconds. The validator
  returns the number of its promise together with the runtime it leaves.
\<close>

definition asyncValidator ::
  "(AbstractControl \<Rightarrow> bool) \<Rightarrow> nat option \<Rightarrow> jsval \<Rightarrow>
     AbstractControl \<Rightarrow> runtime \<Rightarrow> nat \<times> runtime" where
  "asyncValidator checker timeout error =
     (let timeout' = (case timeout of None \<Rightarrow> 0 | Some t \<Rightarrow> t);
          error' = (if error = JUndefined then JObj [(''async'', JBool True)] else error)
      in (\<lambda>c rt.
            let (promise, rt1) = newPromise rt;
                res = (if checker c then JNull else error');
                rt2 = setTimeout (Resolve promise res) timeout' rt1
            in (promise, rt2)))"

text \<open>
  \<^verbatim>\<open>
  function uniqLoginAsyncValidator(expectedValue: string, timeout: number = 0) {
    return asyncValidator(c => c.value === expectedValue, timeout, {'uniqLogin': true});
  }
  \<close>
\<close>

definition uniqLoginAsyncValidator ::
  "string \<Rightarrow> nat option \<Rightarrow> AbstractControl \<Rightarrow> runtime \<Rightarrow> nat \<times> runtime" where
  "uniqLoginAsyncValidator expectedValue timeout =
     (let timeout' = (case timeout of None \<Rightarrow> 0 | Some t \<Rightarrow> t)
      in asyncValidator (\<lambda>c. strictEqualsString (cvalue c) expectedValue) (Some timeout')
           (JObj [(''uniqLogin'', JBool True)]))"

section \<open>QuestSummaryComponent\<close>

text \<open>
  The documentation example declares a class with a \<^verbatim>\<open>@Component\<close> decorator. The
  declaration is kept as data: the properties of the decorator's object literal in the order
  written, and the members of the class body.
  \<^verbatim>\<open>
  @Component({
    selector: 'app-quest-summary',
    templateUrl: './quest-summary.component.html',
    styleUrls:  ['./quest-summary.component.css']
  })
  export class QuestSummaryComponent { }
  \<close>
  The \<^verbatim>\<open>encapsulation\<close> property appears in the file only inside a block comment
  after the class.
\<close>

datatype member = Field string | Method string | Constructor

record ComponentDecl =
  className :: string
  metadata :: "(string \<times> jsval) list"
  members :: "member list"

definition QuestSummaryComponent :: ComponentDecl where
  "QuestSummaryComponent =
     \<lparr> className = ''QuestSummaryComponent'',
       metadata =
         [(''selector'', JStr ''app-quest-summary''),
          (''templateUrl'', JStr ''./quest-summary.component.html''),
          (''styleUrls'', JArr [JStr ''./quest-summary.component.css''])],
       members = [] \<rparr>"

section \<open>checkAndUpdateView\<close>

text \<open>
  The study note on \<^verbatim>\<open>checkAndUpdateView\<close> lists thirteen steps that one check of a view
  performs. A check is modelled as a function from the view to the checked view and the
  list of actions performed, one constructor per step of the note; steps 4 and 10 check the
  embedded views and the child views of the view by the same thirteen steps, and their
  actions are kept nested in the action of the step.
\<close>

datatype hook =
  OnChanges | OnInit | DoCheck | AfterContentInit | AfterContentChecked
  | AfterViewInit | AfterViewChecked

datatype action =
    SetFirstCheck bool
  | UpdateInputProperties
  | UpdateChildViewState
  | CheckEmbeddedView "action list"
  | CallHook hook
  | UpdateContentChildren
  | UpdateDomInterpolations
  | CheckChildView "action list"
  | UpdateViewChildren
  | DisableChecks

text \<open>
  Step 1 sets \<^verbatim>\<open>ViewState.firstCheck\<close> according to whether the view was checked before,
  so the state of a view remembers that as well.
\<close>

record ViewState =
  firstCheck :: bool
  checkedBefore :: bool

text \<open>
  A view has its state, its embedded views and its child views. Whether the bindings of a
  child component changed (step 5) and whether properties of the component of the view
  changed (step 9) are given with the view.
\<close>

datatype view =
  View (state: ViewState) (bindingsChanged: bool) (propertiesChanged: bool)
       (embeddedViews: "view list") (childViews: "view list")

text \<open>
  The steps of the note, in its order:
  \<^enum> sets \<^verbatim>\<open>ViewState.firstCheck\<close> to true if the view is checked for the first time and
    to false if it was already checked before;
  \<^enum> checks and updates input properties on a child component or directive instance;
  \<^enum> updates the change detection state of the child views;
  \<^enum> runs change detection for the embedded views;
  \<^enum> calls \<^verbatim>\<open>OnChanges\<close> on a child component if bindings changed;
  \<^enum> calls \<^verbatim>\<open>OnInit\<close> (only during the first check) and \<^verbatim>\<open>ngDoCheck\<close>;
  \<^enum> updates the \<^verbatim>\<open>ContentChildren\<close> query list;
  \<^enum> calls \<^verbatim>\<open>AfterContentInit\<close> (only during the first check) and
    \<^verbatim>\<open>AfterContentChecked\<close>;
  \<^enum> updates the DOM interpolations of the view if properties of its component changed;
  \<^enum> runs change detection for a child view;
  \<^enum> updates the \<^verbatim>\<open>ViewChildren\<close> query list;
  \<^enum> calls \<^verbatim>\<open>AfterViewInit\<close> (only during the first check) and
    \<^verbatim>\<open>AfterViewChecked\<close>;
  \<^enum> disables checks for the view.

  The note does not say what steps 3 and 13 do to a later check; they are recorded as
  actions, and every call of the function is a check of the view.
\<close>

fun checkAndUpdateView :: "view \<Rightarrow> view \<times> action list" where
  "checkAndUpdateView (View st bc pc emb ch) =
     (let first = \<not> checkedBefore st;
          st' = st\<lparr>firstCheck := first, checkedBefore := True\<rparr>;
          embR = map checkAndUpdateView emb;
          chR = map checkAndUpdateView ch
      in (View st' bc pc (map fst embR) (map fst chR),
          [SetFirstCheck first, UpdateInputProperties, UpdateChildViewState]
          @ map (\<lambda>r. CheckEmbeddedView (snd r)) embR
          @ (if bc then [CallHook OnChanges] else [])
          @ (if first then [CallHook OnInit] else []) @ [CallHook DoCheck]
          @ [UpdateContentChildren]
          @ (if first then [CallHook AfterContentInit] else []) @ [CallHook AfterContentChecked]
          @ (if pc then [UpdateDomInterpolations] else [])
          @ map (\<lambda>r. CheckChildView (snd r)) chR
          @ [UpdateViewChildren]
          @ (if first then [CallHook AfterViewInit] else []) @ [CallHook AfterViewChecked]
          @ [DisableChecks]))"

text \<open>\<open>nthCheck n v\<close> is check number \<open>n + 1\<close> of \<open>n + 1\<close> checks of \<open>v\<close> in a row.\<close>

fun nthCheck :: "nat \<Rightarrow> view \<Rightarrow> view \<times> action list" where
  "nthCheck 0 v = checkAndUpdateView v"
| "nthCheck (Suc n) v = nthCheck n (fst (checkAndUpdateView v))"

fun isInitHook :: "hook \<Rightarrow> bool" where
  "isInitHook OnInit = True"
| "isInitHook AfterContentInit = True"
| "isInitHook AfterViewInit = True"
| "isInitHook _ = False"

text \<open>The hooks a check calls for the view itself, and those it calls at any depth.\<close>

fun ownHook :: "action \<Rightarrow> hook list" where
  "ownHook (CallHook h) = [h]"
| "ownHook _ = []"

definition ownHooks :: "action list \<Rightarrow> hook list" where
  "ownHooks tr = concat (map ownHook tr)"

fun calledIn :: "action \<Rightarrow> hook list" where
  "calledIn (CallHook h) = [h]"
| "calledIn (CheckEmbeddedView tr) = concat (map calledIn tr)"
| "calledIn (CheckChildView tr) = concat (map calledIn tr)"
| "calledIn _ = []"

definition hooksCalled :: "action list \<Rightarrow> hook list" where
  "hooksCalled tr = concat (map calledIn tr)"

fun allChecked :: "view \<Rightarrow> bool" where
  "allChecked (View st bc pc emb ch) =
     (checkedBefore st \<and> list_all allChecked emb \<and> list_all allChecked ch)"

section \<open>Properties of loginIsEmptyGroupValidator\<close>

lemma joinIsEmpty_True:
  "joinIsEmpty xs = Inr True \<longleftrightarrow>
     xs = [] \<or> xs = [JUndefined] \<or> xs = [JNull] \<or> (\<exists>x. xs = [x] \<and> toStringIsEmpty x = Inr True)"
proof (cases xs)
  case Nil
  then show ?thesis by simp
next
  case (Cons x ys)
  show ?thesis
  proof (cases ys)
    case Nil
    with Cons show ?thesis
      by (cases "x = JUndefined \<or> x = JNull"; cases "toStringIsEmpty x") auto
  next
    case (Cons y zs)
    with \<open>xs = x # ys\<close> show ?thesis
      by (simp split: sum.splits)
  qed
qed

lemma jserror_eq: "(e::jserror) = TypeError"
  by (cases e) simp

lemma throws_iff:
  "toStringIsEmpty v = Inl TypeError \<longleftrightarrow> conversionThrows v"
  "joinIsEmpty xs = Inl TypeError \<longleftrightarrow> (\<exists>x\<in>set xs. conversionThrows x)"
proof (induction v and xs rule: toStringIsEmpty_joinIsEmpty.induct)
  case (11 x xs)
  define h where "h = (if x = JUndefined \<or> x = JNull then Inr True else toStringIsEmpty x)"
  have step: "joinIsEmpty (x # xs) =
      (case h of Inl e \<Rightarrow> Inl e
       | Inr b \<Rightarrow> (case joinIsEmpty xs of Inl e \<Rightarrow> Inl e | Inr r \<Rightarrow> Inr (b \<and> xs = [])))"
    unfolding h_def by (rule joinIsEmpty.simps)
  have head: "h = Inl TypeError \<longleftrightarrow> conversionThrows x"
  proof (cases "x = JUndefined \<or> x = JNull")
    case True
    then show ?thesis unfolding h_def by auto
  next
    case False
    with 11(1) show ?thesis unfolding h_def by simp
  qed
  show ?case
  proof (cases h)
    case (Inl e)
    with head jserror_eq [of e] have "conversionThrows x" by simp
    with Inl jserror_eq [of e] show ?thesis by (simp del: joinIsEmpty.simps add: step)
  next
    case (Inr b)
    with head have nh: "\<not> conversionThrows x" by simp
    note head_ok = Inr [unfolded h_def]
    from 11(2) [OF head_ok]
    have tail: "(joinIsEmpty xs = Inl TypeError) = (\<exists>y\<in>set xs. conversionThrows y)" .
    show ?thesis
    proof (cases "joinIsEmpty xs")
      case (Inl e)
      with tail jserror_eq [of e] have "\<exists>y\<in>set xs. conversionThrows y" by simp
      with Inl \<open>h = Inr b\<close> jserror_eq [of e] show ?thesis by (simp del: joinIsEmpty.simps add: step)
    next
      case (Inr r)
      with tail have "\<not> (\<exists>y\<in>set xs. conversionThrows y)" by simp
      with Inr \<open>h = Inr b\<close> nh show ?thesis by (simp del: joinIsEmpty.simps add: step)
    qed
  qed
qed simp_all

lemma looseEqualsEmptyString_True:
  "looseEqualsEmptyString v = Inr True \<longleftrightarrow>
     v = JStr [] \<or> v = JNum (Finite 0) \<or> v = JBigInt 0 \<or> v = JBool False \<or>
     (\<exists>xs. v = JArr xs \<and> toStringIsEmpty (JArr xs) = Inr True)"
  by (cases v) (simp_all add: boolToNumber_def)

lemma looseEqualsEmptyString_throws:
  "looseEqualsEmptyString v = Inl TypeError \<longleftrightarrow>
     (\<exists>ps. v = JObj ps \<and> ''toString'' \<in> fst ` set ps) \<or>
     (\<exists>xs. v = JArr xs \<and> (\<exists>x\<in>set xs. conversionThrows x))"
  by (cases v) (simp_all add: throws_iff(2))

text \<open>
  C8, as stated: the validator returns the error object exactly when the value of the login
  control is the empty string. It fails for a login control whose value is the number 0:
  \<^verbatim>\<open>0 == ''\<close> holds, so the error object is returned although the value is not the
  empty string.
\<close>

theorem loginIsEmptyGroupValidator_counterexample:
  "loginIsEmptyGroupValidator
     \<lparr> cvalue = JObj [(''login'', JNum (Finite 0))],
       controls = [(''login'', \<lparr> cvalue = JNum (Finite 0) \<rparr>)] \<rparr>
     = Inr (JObj [(''loginIsEmpty'', JBool True)])
   \<and> JNum (Finite 0) \<noteq> JStr ''''"
  by (simp add: loginIsEmptyGroupValidator_def)

text \<open>
  C8, amended: for every group with a login control, the validator
  \<^item> returns the error object \<^verbatim>\<open>{'loginIsEmpty': true}\<close> exactly when the value of the
    login control is loosely equal to the empty string: the empty string, the number zero,
    the bigint zero, \<^verbatim>\<open>false\<close>, or an array whose string conversion is empty;
  \<^item> throws a \<^verbatim>\<open>TypeError\<close> exactly when the comparison cannot convert the value to a
    primitive: an object with an own property \<^verbatim>\<open>toString\<close>, or an array with an element
    whose string conversion throws;
  \<^item> returns \<^verbatim>\<open>null\<close> otherwise.

  For a login control whose value is a string it returns the error object exactly when the
  string is empty, and \<^verbatim>\<open>null\<close> exactly when it is not.
\<close>

theorem loginIsEmptyGroupValidator_loose:
  assumes "map_of (controls c) ''login'' = Some login"
  shows "(loginIsEmptyGroupValidator c = Inr (JObj [(''loginIsEmpty'', JBool True)]) \<longleftrightarrow>
            cvalue login = JStr [] \<or> cvalue login = JNum (Finite 0) \<or>
            cvalue login = JBigInt 0 \<or> cvalue login = JBool False \<or>
            (\<exists>xs. cvalue login = JArr xs \<and> toStringIsEmpty (JArr xs) = Inr True))
       \<and> (loginIsEmptyGroupValidator c = Inl TypeError \<longleftrightarrow>
            (\<exists>ps. cvalue login = JObj ps \<and> ''toString'' \<in> fst ` set ps) \<or>
            (\<exists>xs. cvalue login = JArr xs \<and> (\<exists>x\<in>set xs. conversionThrows x)))
       \<and> (loginIsEmptyGroupValidator c = Inr (JObj [(''loginIsEmpty'', JBool True)]) \<or>
          loginIsEmptyGroupValidator c = Inl TypeError \<or>
          loginIsEmptyGroupValidator c = Inr JNull)
       \<and> (\<forall>s. cvalue login = JStr s \<longrightarrow>
               (loginIsEmptyGroupValidator c = Inr (JObj [(''loginIsEmpty'', JBool True)])
                  \<longleftrightarrow> s = [])
               \<and> (loginIsEmptyGroupValidator c = Inr JNull \<longleftrightarrow> s \<noteq> []))"
proof -
  let ?v = "cvalue login"
  let ?err = "JObj [(''loginIsEmpty'', JBool True)]"
  have res: "loginIsEmptyGroupValidator c =
      (case looseEqualsEmptyString ?v of Inl e \<Rightarrow> Inl e
       | Inr b \<Rightarrow> Inr (if b then ?err else JNull))"
    using assms by (simp add: loginIsEmptyGroupValidator_def)
  have a: "loginIsEmptyGroupValidator c = Inr ?err \<longleftrightarrow> looseEqualsEmptyString ?v = Inr True"
    unfolding res by (cases "looseEqualsEmptyString ?v") auto
  have b: "loginIsEmptyGroupValidator c = Inl TypeError \<longleftrightarrow>
             looseEqualsEmptyString ?v = Inl TypeError"
    unfolding res by (cases "looseEqualsEmptyString ?v") auto
  have c: "loginIsEmptyGroupValidator c = Inr ?err \<or>
           loginIsEmptyGroupValidator c = Inl TypeError \<or>
           loginIsEmptyGroupValidator c = Inr JNull"
    unfolding res by (cases "looseEqualsEmptyString ?v") (auto simp add: jserror_eq)
  have d: "\<forall>s. ?v = JStr s \<longrightarrow>
             (loginIsEmptyGroupValidator c = Inr ?err \<longleftrightarrow> s = [])
             \<and> (loginIsEmptyGroupValidator c = Inr JNull \<longleftrightarrow> s \<noteq> [])"
    unfolding res by simp
  from a b c d show ?thesis
    unfolding looseEqualsEmptyString_True looseEqualsEmptyString_throws by blast
qed

text \<open>
  The theorem at the empty string, at \<^verbatim>\<open>false\<close>, at the array whose one element
  is the array of \<^verbatim>\<open>null\<close>, at \<^verbatim>\<open>{toString: 1}\<close>, at
  \<^verbatim>\<open>['a', {toString: 1}]\<close> and at \<^verbatim>\<open>'carson'\<close>.
\<close>

theorem loginIsEmptyGroupValidator_loose_witness:
  "map_of (controls (loginGroup (JBool False))) ''login'' = Some \<lparr> cvalue = JBool False \<rparr>
   \<and> loginIsEmptyGroupValidator (loginGroup (JStr '''')) = Inr (JObj [(''loginIsEmpty'', JBool True)])
   \<and> loginIsEmptyGroupValidator (loginGroup (JBool False)) = Inr (JObj [(''loginIsEmpty'', JBool True)])
   \<and> loginIsEmptyGroupValidator (loginGroup (JArr [JArr [JNull]])) = Inr (JObj [(''loginIsEmpty'', JBool True)])
   \<and> loginIsEmptyGroupValidator (loginGroup (JObj [(''toString'', JNum (Finite 1))])) = Inl TypeError
   \<and> loginIsEmptyGroupValidator (loginGroup (JArr [JStr ''a'', JObj [(''toString'', JNum (Finite 1))]])) = Inl TypeError
   \<and> loginIsEmptyGroupValidator (loginGroup (JStr ''carson'')) = Inr JNull"
  using loginIsEmptyGroupValidator_loose [of "loginGroup (JStr '''')" "\<lparr> cvalue = JStr '''' \<rparr>"]
    loginIsEmptyGroupValidator_loose [of "loginGroup (JBool False)" "\<lparr> cvalue = JBool False \<rparr>"]
    loginIsEmptyGroupValidator_loose [of "loginGroup (JArr [JArr [JNull]])" "\<lparr> cvalue = JArr [JArr [JNull]] \<rparr>"]
    loginIsEmptyGroupValidator_loose [of "loginGroup (JObj [(''toString'', JNum (Finite 1))])"
       "\<lparr> cvalue = JObj [(''toString'', JNum (Finite 1))] \<rparr>"]
    loginIsEmptyGroupValidator_loose [of "loginGroup (JArr [JStr ''a'', JObj [(''toString'', JNum (Finite 1))]])"
       "\<lparr> cvalue = JArr [JStr ''a'', JObj [(''toString'', JNum (Finite 1))]] \<rparr>"]
    loginIsEmptyGroupValidator_loose [of "loginGroup (JStr ''carson'')" "\<lparr> cvalue = JStr ''carson'' \<rparr>"]
  by (simp add: loginGroup_def)

section \<open>Properties of QuestSummaryComponent\<close>

text \<open>
  C10: the class QuestSummaryComponent declares no members (no field, method or
  constructor), and its component metadata sets the selector, the template URL and the style
  URLs and nothing else.
\<close>

theorem QuestSummaryComponent_trivial:
  "members QuestSummaryComponent = []
   \<and> map fst (metadata QuestSummaryComponent) = [''selector'', ''templateUrl'', ''styleUrls'']
   \<and> map_of (metadata QuestSummaryComponent) ''selector'' = Some (JStr ''app-quest-summary'')
   \<and> map_of (metadata QuestSummaryComponent) ''templateUrl''
       = Some (JStr ''./quest-summary.component.html'')
   \<and> map_of (metadata QuestSummaryComponent) ''styleUrls''
       = Some (JArr [JStr ''./quest-summary.component.css''])"
  by (simp add: QuestSummaryComponent_def)

section \<open>Properties of asyncValidator\<close>

lemma strictEqualsString_iff: "strictEqualsString v s \<longleftrightarrow> v = JStr s"
  by (cases v) auto

lemma resolvePromise_frame [simp]:
  "now (resolvePromise q v rt) = now rt"
  "timers (resolvePromise q v rt) = timers rt"
  "length (promises (resolvePromise q v rt)) = length (promises rt)"
  by (simp_all add: resolvePromise_def)

lemma promiseAt_resolvePromise:
  "promiseAt (resolvePromise q v rt) p =
     (if q = p \<and> promiseAt rt p = Some Pending then Some (Resolved v) else promiseAt rt p)"
  by (auto simp add: resolvePromise_def promiseAt_def nth_list_update)

lemma runCallbacks_frame [simp]:
  "now (fold (\<lambda>t. runCallback (snd t)) ts rt) = now rt"
  "timers (fold (\<lambda>t. runCallback (snd t)) ts rt) = timers rt"
  "length (promises (fold (\<lambda>t. runCallback (snd t)) ts rt)) = length (promises rt)"
proof (induction ts arbitrary: rt)
  case Nil
  { case 1 show ?case by simp }
  { case 2 show ?case by simp }
  { case 3 show ?case by simp }
next
  case (Cons t ts)
  obtain d q v where t: "t = (d, Resolve q v)"
    by (cases t, cases "snd t") auto
  { case 1 show ?case using Cons.IH(1) by (simp add: t) }
  { case 2 show ?case using Cons.IH(2) by (simp add: t) }
  { case 3 show ?case using Cons.IH(3) by (simp add: t) }
qed

text \<open>A settled promise stays as it is, whatever callbacks run.\<close>

lemma runCallbacks_resolved:
  assumes "promiseAt rt p = Some (Resolved res)"
  shows "promiseAt (fold (\<lambda>t. runCallback (snd t)) ts rt) p = Some (Resolved res)"
  using assms
proof (induction ts arbitrary: rt)
  case Nil
  then show ?case by simp
next
  case (Cons t ts)
  obtain d q v where t: "t = (d, Resolve q v)"
    by (cases t, cases "snd t") auto
  have "promiseAt (resolvePromise q v rt) p = Some (Resolved res)"
    using Cons.prems by (simp add: promiseAt_resolvePromise)
  with Cons.IH show ?case by (simp add: t)
qed

text \<open>
  A pending promise is settled by the callbacks that name it; when all of them carry the
  same value, that value is the result.
\<close>

lemma runCallbacks_pending:
  assumes "\<forall>t\<in>set ts. target (snd t) = p \<longrightarrow> snd t = Resolve p res"
    and "promiseAt rt p = Some Pending"
  shows "promiseAt (fold (\<lambda>t. runCallback (snd t)) ts rt) p =
           (if \<exists>t\<in>set ts. target (snd t) = p then Some (Resolved res) else Some Pending)"
  using assms
proof (induction ts arbitrary: rt)
  case Nil
  then show ?case by simp
next
  case (Cons t ts)
  obtain d q v where t: "t = (d, Resolve q v)"
    by (cases t, cases "snd t") auto
  have rest: "\<forall>t\<in>set ts. target (snd t) = p \<longrightarrow> snd t = Resolve p res"
    using Cons.prems(1) by simp
  show ?case
  proof (cases "q = p")
    case True
    with Cons.prems(1) have "v = res" by (simp add: t)
    with True Cons.prems(2)
    have "promiseAt (resolvePromise q v rt) p = Some (Resolved res)"
      by (simp add: promiseAt_resolvePromise)
    from runCallbacks_resolved [OF this] True show ?thesis by (simp add: t)
  next
    case False
    with Cons.prems(2) have "promiseAt (resolvePromise q v rt) p = Some Pending"
      by (simp add: promiseAt_resolvePromise)
    from Cons.IH [OF rest this] False show ?thesis by (simp add: t)
  qed
qed

lemma now_tick [simp]: "now (tick d rt) = now rt + d"
  by (simp add: tick_def Let_def)

lemma tick_resolved:
  assumes "promiseAt rt p = Some (Resolved res)"
  shows "promiseAt (tick d rt) p = Some (Resolved res)"
proof -
  have "promiseAt (rt\<lparr>now := n, timers := w\<rparr>) p = Some (Resolved res)" for n w
    using assms by (simp add: promiseAt_def split: if_splits)
  then show ?thesis
    unfolding tick_def Let_def by (rule runCallbacks_resolved)
qed

text \<open>One tick of an armed promise: it fires if its time has come and stays armed if not.\<close>

lemma tick_armed:
  assumes "armed T p res rt"
  shows "if T \<le> now rt + d then promiseAt (tick d rt) p = Some (Resolved res)
         else armed T p res (tick d rt)"
proof -
  let ?dl = "now rt + d"
  let ?fired = "sort_key fst (filter (\<lambda>t. fst t \<le> ?dl) (timers rt))"
  let ?rt0 = "rt\<lparr>now := ?dl, timers := filter (\<lambda>t. \<not> fst t \<le> ?dl) (timers rt)\<rparr>"
  have tk: "tick d rt = fold (\<lambda>t. runCallback (snd t)) ?fired ?rt0"
    by (simp add: tick_def Let_def)
  have pend: "promiseAt ?rt0 p = Some Pending"
    using assms by (simp add: armed_def promiseAt_def split: if_splits)
  have same: "\<forall>t\<in>set ?fired. target (snd t) = p \<longrightarrow> snd t = Resolve p res"
    using assms by (auto simp add: armed_def)
  note run = runCallbacks_pending [OF same pend]
  show ?thesis
  proof (cases "T \<le> ?dl")
    case True
    with assms have "(T, Resolve p res) \<in> set ?fired" by (simp add: armed_def)
    then have "\<exists>t\<in>set ?fired. target (snd t) = p" by force
    with run True show ?thesis by (simp add: tk)
  next
    case False
    with assms have "\<not> (\<exists>t\<in>set ?fired. target (snd t) = p)" by (auto simp add: armed_def)
    with run have "promiseAt (tick d rt) p = Some Pending" by (simp add: tk)
    moreover have "timers (tick d rt) = filter (\<lambda>t. \<not> fst t \<le> ?dl) (timers rt)"
      by (simp add: tk)
    ultimately show ?thesis using assms False by (auto simp add: armed_def)
  qed
qed

lemma ticks_resolved:
  "promiseAt rt p = Some (Resolved res) \<Longrightarrow> promiseAt (ticks ds rt) p = Some (Resolved res)"
  by (induction ds arbitrary: rt) (simp_all add: ticks_def tick_resolved)

lemma ticks_armed:
  assumes "armed T p res rt" and "ds \<noteq> []"
  shows "promiseAt (ticks ds rt) p =
           Some (if T \<le> now rt + sum_list ds then Resolved res else Pending)"
  using assms
proof (induction ds arbitrary: rt)
  case Nil
  then show ?case by simp
next
  case (Cons d ds)
  have step: "ticks (d # ds) rt = ticks ds (tick d rt)" by (simp add: ticks_def)
  show ?case
  proof (cases "T \<le> now rt + d")
    case True
    with tick_armed [OF Cons.prems(1), of d]
    have "promiseAt (tick d rt) p = Some (Resolved res)" by simp
    from ticks_resolved [OF this] True show ?thesis by (simp add: step)
  next
    case False
    with tick_armed [OF Cons.prems(1), of d] have a: "armed T p res (tick d rt)" by simp
    show ?thesis
    proof (cases "ds = []")
      case True
      with a False show ?thesis by (simp add: step ticks_def armed_def)
    next
      case False
      from Cons.IH [OF a False] show ?thesis by (simp add: step add.assoc)
    qed
  qed
qed

text \<open>A call of the validator leaves its promise armed for the time of the call plus the timeout.\<close>

lemma asyncValidator_armed:
  assumes "wellFormed rt"
  shows "armed (now rt + (case timeout of None \<Rightarrow> 0 | Some t \<Rightarrow> t))
           (fst (asyncValidator checker timeout error c rt))
           (if checker c then JNull
            else if error = JUndefined then JObj [(''async'', JBool True)] else error)
           (snd (asyncValidator checker timeout error c rt))"
  using assms
  by (auto simp add: asyncValidator_def Let_def newPromise_def setTimeout_def armed_def
        promiseAt_def wellFormed_def list_all_iff nth_append)

lemma now_asyncValidator [simp]:
  "now (snd (asyncValidator checker timeout error c rt)) = now rt"
  by (simp add: asyncValidator_def Let_def newPromise_def setTimeout_def)

lemma fst_asyncValidator:
  "fst (asyncValidator checker timeout error c rt) = length (promises rt)"
  by (simp add: asyncValidator_def Let_def newPromise_def)

text \<open>Well-formedness holds at the start and is kept by the validator and by the clock.\<close>

lemma wellFormed_emptyRuntime: "wellFormed emptyRuntime"
  by (simp add: wellFormed_def emptyRuntime_def)

lemma wellFormed_asyncValidator:
  "wellFormed rt \<Longrightarrow> wellFormed (snd (asyncValidator checker timeout error c rt))"
  by (auto simp add: asyncValidator_def Let_def newPromise_def setTimeout_def
        wellFormed_def list_all_iff)

lemma wellFormed_tick: "wellFormed rt \<Longrightarrow> wellFormed (tick d rt)"
  by (auto simp add: tick_def Let_def wellFormed_def list_all_iff)

text \<open>
  C4: the validator returned by \<^verbatim>\<open>asyncValidator(checker, timeout, error)\<close>, with the
  timeout given or left out, called on a control \<open>c\<close>, returns a new promise that is pending
  when the validator returns; once the clock is advanced (by any ticks) the promise is still
  pending while less than the timeout has elapsed, and from then on it is resolved to
  \<^verbatim>\<open>null\<close> if \<^verbatim>\<open>checker(c)\<close> held when the validator was called and to the error
  otherwise (to the default error \<^verbatim>\<open>{'async': true}\<close> when the error given is
  \<^verbatim>\<open>undefined\<close>). The validator \<^verbatim>\<open>uniqLoginAsyncValidator(expected)\<close>, with or
  without a timeout, likewise returns a new pending promise, which resolves to
  \<^verbatim>\<open>null\<close> exactly when the value of the control is the string \<open>expected\<close>, and to
  \<^verbatim>\<open>{'uniqLogin': true}\<close> otherwise. A timeout left out is a timeout of zero.
\<close>

theorem asyncValidator_resolves:
  assumes "wellFormed rt" and "ds \<noteq> []"
  shows "promiseAt rt (fst (asyncValidator checker timeout error c rt)) = None
       \<and> promiseAt (snd (asyncValidator checker timeout error c rt))
             (fst (asyncValidator checker timeout error c rt)) = Some Pending
       \<and> promiseAt (ticks ds (snd (asyncValidator checker timeout error c rt)))
             (fst (asyncValidator checker timeout error c rt))
           = Some (if (case timeout of None \<Rightarrow> 0 | Some t \<Rightarrow> t) \<le> sum_list ds
                   then Resolved (if checker c then JNull
                                  else if error = JUndefined then JObj [(''async'', JBool True)]
                                  else error)
                   else Pending)
       \<and> promiseAt rt (fst (uniqLoginAsyncValidator expected timeout c rt)) = None
       \<and> promiseAt (snd (uniqLoginAsyncValidator expected timeout c rt))
             (fst (uniqLoginAsyncValidator expected timeout c rt)) = Some Pending
       \<and> promiseAt (ticks ds (snd (uniqLoginAsyncValidator expected timeout c rt)))
             (fst (uniqLoginAsyncValidator expected timeout c rt))
           = Some (if (case timeout of None \<Rightarrow> 0 | Some t \<Rightarrow> t) \<le> sum_list ds
                   then Resolved (if cvalue c = JStr expected then JNull
                                  else JObj [(''uniqLogin'', JBool True)])
                   else Pending)"
proof -
  let ?T = "case timeout of None \<Rightarrow> 0 | Some t \<Rightarrow> t"
  let ?res = "if checker c then JNull
              else if error = JUndefined then JObj [(''async'', JBool True)] else error"
  let ?call = "asyncValidator checker timeout error c rt"
  have fresh: "promiseAt rt (fst ?call) = None"
    by (simp add: fst_asyncValidator promiseAt_def)
  have a: "armed (now rt + ?T) (fst ?call) ?res (snd ?call)"
    by (rule asyncValidator_armed [OF assms(1)])
  from a have pending: "promiseAt (snd ?call) (fst ?call) = Some Pending"
    by (simp add: armed_def)
  from ticks_armed [OF a assms(2)] have later:
    "promiseAt (ticks ds (snd ?call)) (fst ?call)
     = Some (if ?T \<le> sum_list ds then Resolved ?res else Pending)"
    by simp
  let ?ures = "if cvalue c = JStr expected then JNull else JObj [(''uniqLogin'', JBool True)]"
  let ?raw = "asyncValidator (\<lambda>c. strictEqualsString (cvalue c) expected) (Some ?T)
                (JObj [(''uniqLogin'', JBool True)]) c rt"
  let ?ucall = "uniqLoginAsyncValidator expected timeout c rt"
  have u: "?ucall = ?raw"
    by (simp add: uniqLoginAsyncValidator_def)
  have ufresh: "promiseAt rt (fst ?ucall) = None"
    unfolding u by (simp add: fst_asyncValidator promiseAt_def)
  have ua: "armed (now rt + ?T) (fst ?raw) ?ures (snd ?raw)"
    using asyncValidator_armed [OF assms(1), of "Some ?T"
        "\<lambda>c. strictEqualsString (cvalue c) expected" "JObj [(''uniqLogin'', JBool True)]" c]
    by (cases "cvalue c = JStr expected") (simp_all add: strictEqualsString_iff)
  from ua have upending: "promiseAt (snd ?ucall) (fst ?ucall) = Some Pending"
    unfolding u by (simp add: armed_def)
  from ticks_armed [OF ua assms(2)] have ulater:
    "promiseAt (ticks ds (snd ?ucall)) (fst ?ucall)
     = Some (if ?T \<le> sum_list ds then Resolved ?ures else Pending)"
    unfolding u by simp
  from fresh pending later ufresh upending ulater show ?thesis by blast
qed

text \<open>
  The validator of the test at line 2077, with a timeout of 100 ms, called on a control
  whose value is the empty string: pending after 60 ms, resolved to the error after another
  50 ms. The validator of the test at line 750, with no timeout, called on a control whose
  value is the expected one and on one whose value is not: resolved at the next tick, to
  \<^verbatim>\<open>null\<close> and to the error.
\<close>

theorem asyncValidator_resolves_witness:
  "wellFormed emptyRuntime
   \<and> promiseAt
       (ticks [60]
          (snd (uniqLoginAsyncValidator ''expected'' (Some 100) \<lparr> cvalue = JStr '''' \<rparr>
                  emptyRuntime)))
       (fst (uniqLoginAsyncValidator ''expected'' (Some 100) \<lparr> cvalue = JStr '''' \<rparr>
               emptyRuntime))
     = Some Pending
   \<and> promiseAt
       (ticks [60, 50]
          (snd (uniqLoginAsyncValidator ''expected'' (Some 100) \<lparr> cvalue = JStr '''' \<rparr>
                  emptyRuntime)))
       (fst (uniqLoginAsyncValidator ''expected'' (Some 100) \<lparr> cvalue = JStr '''' \<rparr>
               emptyRuntime))
     = Some (Resolved (JObj [(''uniqLogin'', JBool True)]))
   \<and> promiseAt
       (snd (uniqLoginAsyncValidator ''good'' None \<lparr> cvalue = JStr ''good'' \<rparr> emptyRuntime))
       (fst (uniqLoginAsyncValidator ''good'' None \<lparr> cvalue = JStr ''good'' \<rparr> emptyRuntime))
     = Some Pending
   \<and> promiseAt
       (ticks [0]
          (snd (uniqLoginAsyncValidator ''good'' None \<lparr> cvalue = JStr ''good'' \<rparr>
                  emptyRuntime)))
       (fst (uniqLoginAsyncValidator ''good'' None \<lparr> cvalue = JStr ''good'' \<rparr> emptyRuntime))
     = Some (Resolved JNull)
   \<and> promiseAt
       (ticks [0]
          (snd (uniqLoginAsyncValidator ''good'' None \<lparr> cvalue = JStr ''bad'' \<rparr>
                  emptyRuntime)))
       (fst (uniqLoginAsyncValidator ''good'' None \<lparr> cvalue = JStr ''bad'' \<rparr> emptyRuntime))
     = Some (Resolved (JObj [(''uniqLogin'', JBool True)]))"
  using asyncValidator_resolves
          [of emptyRuntime "[60]" _ "Some 100" _ "\<lparr> cvalue = JStr '''' \<rparr>" "''expected''"]
        asyncValidator_resolves
          [of emptyRuntime "[60, 50]" _ "Some 100" _ "\<lparr> cvalue = JStr '''' \<rparr>" "''expected''"]
        asyncValidator_resolves
          [of emptyRuntime "[0]" _ None _ "\<lparr> cvalue = JStr ''good'' \<rparr>" "''good''"]
        asyncValidator_resolves
          [of emptyRuntime "[0]" _ None _ "\<lparr> cvalue = JStr ''bad'' \<rparr>" "''good''"]
  by (simp add: wellFormed_emptyRuntime)

section \<open>Properties of checkAndUpdateView\<close>

lemma allChecked_after: "allChecked (fst (checkAndUpdateView v))"
  by (induction v) (simp add: Let_def list_all_iff)

lemma ownHooks_Nil [simp]: "ownHooks [] = []"
  by (simp add: ownHooks_def)

lemma ownHooks_Cons [simp]: "ownHooks (a # tr) = ownHook a @ ownHooks tr"
  by (simp add: ownHooks_def)

lemma ownHooks_append [simp]: "ownHooks (xs @ ys) = ownHooks xs @ ownHooks ys"
  by (simp add: ownHooks_def)

lemma ownHooks_nested [simp]:
  "ownHooks (map ((\<lambda>r. CheckEmbeddedView (f r)) \<circ> g) rs) = []"
  "ownHooks (map ((\<lambda>r. CheckChildView (f r)) \<circ> g) rs) = []"
  by (induction rs) (simp_all add: ownHooks_def)

lemma own_init_hooks:
  "filter isInitHook (ownHooks (snd (checkAndUpdateView v))) =
     (if checkedBefore (state v) then [] else [OnInit, AfterContentInit, AfterViewInit])"
  by (cases v) (simp add: Let_def)

lemma hooksCalled_Nil [simp]: "hooksCalled [] = []"
  by (simp add: hooksCalled_def)

lemma hooksCalled_Cons [simp]: "hooksCalled (a # tr) = calledIn a @ hooksCalled tr"
  by (simp add: hooksCalled_def)

lemma hooksCalled_append [simp]: "hooksCalled (xs @ ys) = hooksCalled xs @ hooksCalled ys"
  by (simp add: hooksCalled_def)

lemma filter_hooksCalled_embedded:
  "filter P (hooksCalled (map ((\<lambda>r. CheckEmbeddedView (snd r)) \<circ> g) vs)) =
     concat (map (\<lambda>v. filter P (hooksCalled (snd (g v)))) vs)"
  by (induction vs) (simp_all add: hooksCalled_def filter_concat)

lemma filter_hooksCalled_child:
  "filter P (hooksCalled (map ((\<lambda>r. CheckChildView (snd r)) \<circ> g) vs)) =
     concat (map (\<lambda>v. filter P (hooksCalled (snd (g v)))) vs)"
  by (induction vs) (simp_all add: hooksCalled_def filter_concat)

lemma concat_all_Nil: "(\<And>x. x \<in> set xs \<Longrightarrow> f x = []) \<Longrightarrow> concat (map f xs) = []"
  by (induction xs) simp_all

text \<open>
  When a view and all the views below it were checked before, its check calls none of the
  three hooks at any depth.
\<close>

lemma no_init_hooks_when_checked:
  "allChecked v \<Longrightarrow> filter isInitHook (hooksCalled (snd (checkAndUpdateView v))) = []"
proof (induction v)
  case (View st bc pc emb ch)
  have e: "concat (map (\<lambda>v. filter isInitHook (hooksCalled (snd (checkAndUpdateView v)))) emb)
             = []"
    using View.IH(1) View.prems by (intro concat_all_Nil) (auto simp add: list_all_iff)
  have c: "concat (map (\<lambda>v. filter isInitHook (hooksCalled (snd (checkAndUpdateView v)))) ch)
             = []"
    using View.IH(2) View.prems by (intro concat_all_Nil) (auto simp add: list_all_iff)
  from View.prems e c show ?case
    by (simp add: Let_def filter_hooksCalled_embedded filter_hooksCalled_child)
qed

lemma state_after:
  "firstCheck (state (fst (checkAndUpdateView v))) = (\<not> checkedBefore (state v))"
  "checkedBefore (state (fst (checkAndUpdateView v)))"
  by (cases v, simp add: Let_def)+

lemma nthCheck_Suc_no_init:
  "filter isInitHook (hooksCalled (snd (nthCheck (Suc n) v))) = []"
proof (induction n arbitrary: v)
  case 0
  show ?case using no_init_hooks_when_checked [OF allChecked_after] by simp
next
  case (Suc n)
  from Suc [of "fst (checkAndUpdateView v)"] show ?case by simp
qed

lemma nthCheck_firstCheck:
  "firstCheck (state (fst (nthCheck n v))) = (n = 0 \<and> \<not> checkedBefore (state v))"
proof (induction n arbitrary: v)
  case 0
  show ?case by (simp add: state_after)
next
  case (Suc n)
  from Suc [of "fst (checkAndUpdateView v)"] show ?case by (simp add: state_after)
qed

text \<open>
  A view that was never checked, with one embedded view and one child view: its first
  check calls the three hooks for each of the three views, its second check none.
\<close>

lemma checkAndUpdateView_example:
  "filter isInitHook
     (hooksCalled (snd (nthCheck 0
        (View \<lparr>firstCheck = False, checkedBefore = False\<rparr> False True
           [View \<lparr>firstCheck = False, checkedBefore = False\<rparr> True False [] []]
           [View \<lparr>firstCheck = False, checkedBefore = False\<rparr> True False [] []]))))
     = [OnInit, AfterContentInit, AfterViewInit, OnInit, AfterContentInit,
        OnInit, AfterContentInit, AfterViewInit, AfterViewInit]"
  "filter isInitHook
     (hooksCalled (snd (nthCheck 1
        (View \<lparr>firstCheck = False, checkedBefore = False\<rparr> False True
           [View \<lparr>firstCheck = False, checkedBefore = False\<rparr> True False [] []]
           [View \<lparr>firstCheck = False, checkedBefore = False\<rparr> True False [] []]))))
     = []"
  by (simp_all add: Let_def hooksCalled_def)

text \<open>
  C3: in the documented algorithm the hooks \<^verbatim>\<open>OnInit\<close>, \<^verbatim>\<open>AfterContentInit\<close> and
  \<^verbatim>\<open>AfterViewInit\<close> are called only during the first check of a view. A check leaves
  \<^verbatim>\<open>firstCheck\<close> true exactly when the view was not checked before, and leaves the view
  checked; for the view itself it calls the three hooks when the view was not checked before
  and none of them when it was. In a row of checks of a view, \<^verbatim>\<open>firstCheck\<close> is true
  after the first check only (and only if the view was not checked before the row), and
  every check after the first calls none of the three hooks for the view or for any view
  below it.
\<close>

theorem checkAndUpdateView_init_hooks_first_check_only:
  "firstCheck (state (fst (checkAndUpdateView v))) = (\<not> checkedBefore (state v))
   \<and> checkedBefore (state (fst (checkAndUpdateView v)))
   \<and> filter isInitHook (ownHooks (snd (checkAndUpdateView v)))
       = (if checkedBefore (state v) then [] else [OnInit, AfterContentInit, AfterViewInit])
   \<and> firstCheck (state (fst (nthCheck n v))) = (n = 0 \<and> \<not> checkedBefore (state v))
   \<and> filter isInitHook (hooksCalled (snd (nthCheck (Suc n) v))) = []"
  using state_after [of v] own_init_hooks [of v] nthCheck_firstCheck [of n v]
    nthCheck_Suc_no_init [of n v]
  by blast

end
